theory Spec2Isabelle
  imports Main "HOL-Library.Sublist" "HOL-Library.AList"
begin

section \<open>JavaScript strings\<close>

text \<open>
  Strings are lists of code units; the model covers the code units 0..255, which is what
  \<^typ>\<open>char\<close> holds. The built-in string methods the sources call are written out here
  as list functions.
\<close>

abbreviation LF :: char where "LF \<equiv> CHR 0x0A"
abbreviation CR :: char where "CR \<equiv> CHR 0x0D"

text \<open>
  \<^verbatim>\<open>s.split(sep)\<close> for a one-character separator. The result is never the empty
  array (\<open>split_on_nonempty\<close> below), so the first branch of the \<open>case\<close> is never
  taken.
\<close>

fun split_on :: "char \<Rightarrow> string \<Rightarrow> string list" where
  "split_on c [] = [[]]"
| "split_on c (x # xs) =
     (if x = c then [] # split_on c xs
      else (case split_on c xs of [] \<Rightarrow> [[x]] | l # ls \<Rightarrow> (x # l) # ls))"

text \<open>\<^verbatim>\<open>lines.join(sep)\<close>.\<close>

fun join_with :: "string \<Rightarrow> string list \<Rightarrow> string" where
  "join_with sep [] = []"
| "join_with sep [l] = l"
| "join_with sep (l # m # ls) = l @ sep @ join_with sep (m # ls)"

text \<open>\<^verbatim>\<open>s.replace(/\r\n/g, '\n')\<close>: every CR LF pair, left to right, becomes LF.\<close>

fun replaceCRLF :: "string \<Rightarrow> string" where
  "replaceCRLF (a # b # rest) =
     (if a = CR \<and> b = LF then LF # replaceCRLF rest else a # replaceCRLF (b # rest))"
| "replaceCRLF [a] = [a]"
| "replaceCRLF [] = []"

text \<open>The class \<^verbatim>\<open>\s\<close> of a regular expression, on the code units below 256.\<close>

definition isWhitespace :: "char \<Rightarrow> bool" where
  "isWhitespace c \<longleftrightarrow>
     c \<in> set [CHR 0x09, CHR 0x0A, CHR 0x0B, CHR 0x0C, CHR 0x0D, CHR 0x20, CHR 0xA0]"

text \<open>\<^verbatim>\<open>line.match(/^\s*/)?.[0] || ''\<close>: the leading run of whitespace.\<close>

definition leadingWhitespace :: "string \<Rightarrow> string" where
  "leadingWhitespace line = takeWhile isWhitespace line"

definition trimStart :: "string \<Rightarrow> string" where
  "trimStart line = dropWhile isWhitespace line"

text \<open>\<^verbatim>\<open>s.includes(t)\<close>: \<open>t\<close> occurs in \<open>s\<close> as a contiguous run.\<close>

fun includes_str :: "string \<Rightarrow> string \<Rightarrow> bool" where
  "includes_str [] t = (t = [])"
| "includes_str (x # xs) t = (prefix t (x # xs) \<or> includes_str xs t)"


section \<open>Errors\<close>

text \<open>
  Every \<^verbatim>\<open>throw\<close> of the sources is a value. \<open>JsError\<close> is the plain
  \<^verbatim>\<open>new Error(message)\<close>; \<open>ErrnoException\<close> is a rejection of a \<^verbatim>\<open>node:fs\<close>
  call, carrying its \<^verbatim>\<open>code\<close>; the other three are the classes of
  \<^verbatim>\<open>errors/index.ts\<close>, with their message and the path they carry.
\<close>

datatype error =
    JsError string
  | ErrnoException string
  | AccessDeniedError string string
  | PathNotFoundError string string
  | InvalidArgumentsError string string

text \<open>The \<^verbatim>\<open>code\<close> property a \<^verbatim>\<open>catch\<close> block reads; a plain Error has none.\<close>

fun error_code :: "error \<Rightarrow> string option" where
  "error_code (JsError m) = None"
| "error_code (ErrnoException c) = Some c"
| "error_code (AccessDeniedError m p) = Some ''ACCESS_DENIED''"
| "error_code (PathNotFoundError m p) = Some ''PATH_NOT_FOUND''"
| "error_code (InvalidArgumentsError m d) = Some ''INVALID_ARGS''"

text \<open>The constructors of \<^verbatim>\<open>errors/index.ts\<close>.\<close>

definition newAccessDeniedError :: "string \<Rightarrow> string option \<Rightarrow> error" where
  "newAccessDeniedError path message =
     AccessDeniedError
       (case message of
          None \<Rightarrow> ''Access denied - path outside allowed directories: '' @ path
        | Some m \<Rightarrow>
            if m = [] then ''Access denied - path outside allowed directories: '' @ path
            else m)
       path"

definition newPathNotFoundError :: "string \<Rightarrow> error" where
  "newPathNotFoundError path = PathNotFoundError (''Path not found: '' @ path) path"

definition newInvalidArgumentsError :: "string \<Rightarrow> string \<Rightarrow> error" where
  "newInvalidArgumentsError toolName details =
     InvalidArgumentsError (''Invalid arguments for '' @ toolName) details"


section \<open>The patch engine\<close>

record edit =
  oldText :: string
  newText :: string

text \<open>
  The inner \<^verbatim>\<open>for\<close> loop of \<^verbatim>\<open>applyFileEdits\<close> and \<^verbatim>\<open>editFile\<close>: the lowest line
  index \<open>i\<close>, from \<open>i\<close> on, with \<^verbatim>\<open>i <= contentLines.length - oldLines.length\<close>, at which
  the slice of as many lines as \<open>oldLines\<close> has, joined by newlines, is \<open>normalizedOld\<close>.
\<close>

function findMatch :: "nat \<Rightarrow> string list \<Rightarrow> string list \<Rightarrow> string \<Rightarrow> nat option" where
  "findMatch i contentLines oldLines normalizedOld =
     (if int i \<le> int (length contentLines) - int (length oldLines) then
        (if join_with [LF] (take (length oldLines) (drop i contentLines)) = normalizedOld
         then Some i
         else findMatch (Suc i) contentLines oldLines normalizedOld)
      else None)"
  by pat_completeness auto
termination
  by (relation "measure (\<lambda>(i, contentLines, oldLines, normalizedOld).
        Suc (length contentLines) - i)") auto

declare findMatch.simps [simp del]

text \<open>
  The callback of \<^verbatim>\<open>normalizedNew.split('\n').map((line, j) => ...)\<close>: the first line
  takes the indentation of the first matched line; a later line keeps its indentation
  relative to the old line at the same position when both are indented.
\<close>

definition reindent :: "string \<Rightarrow> string list \<Rightarrow> nat \<Rightarrow> string \<Rightarrow> string" where
  "reindent originalIndent oldLines j line =
     (if j = 0 then originalIndent @ trimStart line
      else
        let oldIndent = (if j < length oldLines then leadingWhitespace (oldLines ! j) else []);
            newIndent = leadingWhitespace line
        in if oldIndent \<noteq> [] \<and> newIndent \<noteq> [] then
             let relativeIndent = int (length newIndent) - int (length oldIndent)
             in originalIndent @ replicate (nat (max 0 relativeIndent)) (CHR '' '')
                  @ trimStart line
           else line)"

text \<open>
  One turn of the outer loop, on the current text. \<open>emptyError\<close> is what the source
  throws in the branch \<^verbatim>\<open>oldLines.length === 0\<close>: a plain Error in
  \<^verbatim>\<open>applyFileEdits\<close>, an InvalidArgumentsError in \<^verbatim>\<open>editFile\<close>.
\<close>

definition applyEdit :: "error \<Rightarrow> string \<Rightarrow> edit \<Rightarrow> error + string" where
  "applyEdit emptyError modifiedContent e =
     (let contentLines = split_on LF modifiedContent;
          normalizedOld = replaceCRLF (oldText e);
          normalizedNew = replaceCRLF (newText e);
          oldLines = split_on LF normalizedOld
      in if length oldLines = 0 then Inl emptyError
         else
           (case findMatch 0 contentLines oldLines normalizedOld of
              None \<Rightarrow> Inl (JsError (''Could not find exact match for edit:'' @ [LF] @ oldText e))
            | Some i \<Rightarrow>
                let originalIndent = leadingWhitespace (contentLines ! i);
                    newLines = map (\<lambda>(j, line). reindent originalIndent oldLines j line)
                                 (enumerate 0 (split_on LF normalizedNew))
                in Inr (join_with [LF]
                     (take i contentLines @ newLines @ drop (i + length oldLines) contentLines))))"

text \<open>
  The outer \<^verbatim>\<open>for (const edit of edits)\<close> of \<^verbatim>\<open>applyFileEdits\<close>: the first throw
  ends it.
\<close>

fun applyFileEdits_loop :: "string \<Rightarrow> edit list \<Rightarrow> error + string" where
  "applyFileEdits_loop modifiedContent [] = Inr modifiedContent"
| "applyFileEdits_loop modifiedContent (e # es) =
     (case applyEdit (JsError ''Edit operation contains empty oldText'') modifiedContent e of
        Inl err \<Rightarrow> Inl err
      | Inr modifiedContent' \<Rightarrow> applyFileEdits_loop modifiedContent' es)"

text \<open>
  The same loop in \<^verbatim>\<open>editFile\<close>, which also keeps the flag \<^verbatim>\<open>appliedAnyEdit\<close>.
\<close>

fun editFile_loop :: "string \<Rightarrow> bool \<Rightarrow> edit list \<Rightarrow> error + string \<times> bool" where
  "editFile_loop modifiedContent appliedAnyEdit [] = Inr (modifiedContent, appliedAnyEdit)"
| "editFile_loop modifiedContent appliedAnyEdit (e # es) =
     (case applyEdit
             (newInvalidArgumentsError ''edit_file'' ''Edit operation contains empty oldText'')
             modifiedContent e of
        Inl err \<Rightarrow> Inl err
      | Inr modifiedContent' \<Rightarrow> editFile_loop modifiedContent' True es)"

text \<open>
  \<^verbatim>\<open>let numBackticks = 3; while (diff.includes('`'.repeat(numBackticks))) numBackticks++\<close>:
  the loop ends, since a run longer than the diff does not occur in it.
\<close>

function numBackticks :: "string \<Rightarrow> nat \<Rightarrow> nat" where
  "numBackticks diff n =
     (if includes_str diff (replicate n (CHR 0x60)) then numBackticks diff (Suc n) else n)"
  by pat_completeness auto
termination
proof (relation "measure (\<lambda>(diff, n). Suc (length diff) - n)")
  show "wf (measure (\<lambda>(diff, n). Suc (length diff) - n))"
    by simp
next
  fix diff :: string and n :: nat
  assume occurs: "includes_str diff (replicate n (CHR 0x60))"
  have bound: "includes_str s t \<Longrightarrow> length t \<le> length s" for s t
    by (induction s) (auto dest: prefix_length_le)
  from bound [OF occurs] have "n \<le> length diff"
    by simp
  then show "((diff, Suc n), (diff, n)) \<in> measure (\<lambda>(diff, n). Suc (length diff) - n)"
    by simp
qed

declare numBackticks.simps [simp del]

text \<open>
  \<^verbatim>\<open>createTwoFilesPatch\<close> comes from the package \<^verbatim>\<open>diff\<close>, which is not part of the
  repository: it is a parameter, of the six arguments the sources pass.
\<close>

type_synonym patcher = "string \<Rightarrow> string \<Rightarrow> string \<Rightarrow> string \<Rightarrow> string \<Rightarrow> string \<Rightarrow> string"

text \<open>The fenced block both sources build around the diff.\<close>

definition fenced :: "string \<Rightarrow> string" where
  "fenced diff =
     (let n = numBackticks diff 3
      in replicate n (CHR 0x60) @ ''diff'' @ [LF] @ diff @ replicate n (CHR 0x60) @ [LF, LF])"


section \<open>The machine\<close>

text \<open>
  What the functions read from the machine: the home directory, the working directory,
  \<^verbatim>\<open>fs.realpath\<close>, which gives the path with every symbolic link resolved
  (\<open>Inr\<close>) or rejects with an ErrnoException, of which \<open>Inl\<close> holds the code (ENOENT
  where the path does not exist), and, for \<^verbatim>\<open>fs.writeFile\<close>, the code of the
  ErrnoException with which a write to a path is rejected, if it is (EACCES on a file
  without write permission, EROFS under a read-only mount).
\<close>

record env =
  homedir :: string
  cwd :: string
  realpath :: "string \<Rightarrow> string + string"
  writeError :: "string \<Rightarrow> string option"


section \<open>The file store\<close>

text \<open>
  The files are a map from a path to the text stored under it. \<^verbatim>\<open>fs.readFile\<close> rejects
  with ENOENT where the map has nothing. \<^verbatim>\<open>fs.writeFile\<close> stores the text, or
  rejects where the machine refuses the write; a rejected write leaves the files as they
  were. The other ways in which \<^verbatim>\<open>fs.readFile\<close> can reject (a directory, missing
  permissions) are not modelled.
\<close>

type_synonym files = "string \<rightharpoonup> string"

definition readFile :: "files \<Rightarrow> string \<Rightarrow> error + string" where
  "readFile fs p = (case fs p of None \<Rightarrow> Inl (ErrnoException ''ENOENT'') | Some c \<Rightarrow> Inr c)"

definition writeFile :: "env \<Rightarrow> files \<Rightarrow> string \<Rightarrow> string \<Rightarrow> error + files" where
  "writeFile ev fs p c =
     (case writeError ev p of
        Some code \<Rightarrow> Inl (ErrnoException code)
      | None \<Rightarrow> Inr (fs(p \<mapsto> c)))"


section \<open>applyFileEdits of the stand-alone server\<close>

text \<open>
  \<^verbatim>\<open>applyFileEdits(filePath, edits, dryRun)\<close> of the stand-alone server file (the one
  that reads its allowed directories from the command line). The result is the value
  returned or the error thrown, and the files afterwards. The write comes last, after
  the diff is built, and its rejection is the error of the call.
\<close>

definition index_createUnifiedDiff :: "patcher \<Rightarrow> string \<Rightarrow> string \<Rightarrow> string \<Rightarrow> string" where
  "index_createUnifiedDiff createTwoFilesPatch originalContent modifiedContent filePath =
     createTwoFilesPatch filePath filePath originalContent modifiedContent
       ''Original'' ''Modified''"

definition index_applyFileEdits ::
  "patcher \<Rightarrow> env \<Rightarrow> files \<Rightarrow> string \<Rightarrow> edit list \<Rightarrow> bool
     \<Rightarrow> (error + string) \<times> files" where
  "index_applyFileEdits createTwoFilesPatch ev fs filePath edits dryRun =
     (case readFile fs filePath of
        Inl err \<Rightarrow> (Inl err, fs)
      | Inr content \<Rightarrow>
          (case applyFileEdits_loop content edits of
             Inl err \<Rightarrow> (Inl err, fs)
           | Inr modifiedContent \<Rightarrow>
               let diff = index_createUnifiedDiff createTwoFilesPatch
                            content modifiedContent filePath;
                   formattedDiff = fenced diff
               in if \<not> dryRun then
                    (case writeFile ev fs filePath modifiedContent of
                       Inl err \<Rightarrow> (Inl err, fs)
                     | Inr fs' \<Rightarrow> (Inr formattedDiff, fs'))
                  else (Inr formattedDiff, fs)))"


section \<open>The validation cache\<close>

text \<open>
  \<^verbatim>\<open>class PathValidationCache\<close>. The JavaScript Map keeps its keys in insertion order:
  it is an association list, oldest key first, where \<^const>\<open>AList.update\<close> is
  \<^verbatim>\<open>Map.set\<close> (a key already there keeps its place and takes the new value, a new key
  goes to the end) and \<^const>\<open>AList.delete\<close> is \<^verbatim>\<open>Map.delete\<close>.
  \<^verbatim>\<open>setTimeout\<close> is a list of pending timers, each with the time it is due (in
  milliseconds) and the key its callback deletes. \<open>maxSize\<close> and \<open>ttl\<close> are the
  numbers given to the constructor, as integers.
\<close>

record PathValidationCache =
  cache :: "(string \<times> string) list"
  maxSize :: int
  ttl :: int
  timers :: "(nat \<times> string) list"

text \<open>\<^verbatim>\<open>constructor(maxSize = 1000, ttlMs = 60000)\<close>.\<close>

definition newPathValidationCache :: "int \<Rightarrow> int \<Rightarrow> PathValidationCache" where
  "newPathValidationCache maxSize' ttlMs =
     \<lparr>cache = [], maxSize = maxSize', ttl = ttlMs, timers = []\<rparr>"

definition pathCache :: PathValidationCache where
  "pathCache = newPathValidationCache 1000 60000"

definition cache_get :: "PathValidationCache \<Rightarrow> string \<Rightarrow> string option" where
  "cache_get c path = map_of (cache c) path"

text \<open>
  \<^verbatim>\<open>this.cache.keys().next().value\<close>, then \<^verbatim>\<open>if (oldestKey)\<close>: the first key, deleted
  when it is a non-empty string.
\<close>

definition evictOldest :: "(string \<times> string) list \<Rightarrow> (string \<times> string) list" where
  "evictOldest m =
     (case m of
        [] \<Rightarrow> m
      | (oldestKey, v) # rest \<Rightarrow> if oldestKey \<noteq> [] then AList.delete oldestKey m else m)"

text \<open>
  The delay \<^verbatim>\<open>setTimeout(callback, delay)\<close> waits: Node sets a delay below 1 or above
  2147483647 to 1.
\<close>

definition timerDelay :: "int \<Rightarrow> nat" where
  "timerDelay delay = (if delay < 1 \<or> delay > 2147483647 then 1 else nat delay)"

text \<open>\<^verbatim>\<open>set(path, validatedPath)\<close>, called at the time \<open>now\<close>.\<close>

definition cache_set :: "nat \<Rightarrow> string \<Rightarrow> string \<Rightarrow> PathValidationCache \<Rightarrow> PathValidationCache" where
  "cache_set now path validatedPath c =
     (let m = (if int (length (cache c)) \<ge> maxSize c then evictOldest (cache c) else cache c)
      in c\<lparr>cache := AList.update path validatedPath m,
           timers := timers c @ [(now + timerDelay (ttl c), path)]\<rparr>)"

definition cache_clear :: "PathValidationCache \<Rightarrow> PathValidationCache" where
  "cache_clear c = c\<lparr>cache := []\<rparr>"

definition cache_size :: "PathValidationCache \<Rightarrow> nat" where
  "cache_size c = length (cache c)"

text \<open>
  The event loop reaching the time \<open>t\<close>: every pending timer due by then runs its
  callback \<^verbatim>\<open>this.cache.delete(path)\<close>, in the order the timers were set. A timer
  runs no earlier than it is due; \<open>runTimers t\<close> is the state once all those due by \<open>t\<close>
  have run.
\<close>

definition runTimers :: "nat \<Rightarrow> PathValidationCache \<Rightarrow> PathValidationCache" where
  "runTimers t c =
     c\<lparr>cache := fold (\<lambda>(due, path) m. AList.delete path m)
                  (filter (\<lambda>(due, path). due \<le> t) (timers c)) (cache c),
       timers := filter (\<lambda>(due, path). \<not> due \<le> t) (timers c)\<rparr>"

text \<open>A sequence of calls on the cache, each at its time.\<close>

datatype cache_op = Get string | Set nat string string

text \<open>The keys a sequence of calls sets.\<close>

fun set_keys :: "cache_op list \<Rightarrow> string list" where
  "set_keys [] = []"
| "set_keys (Get p # ops) = set_keys ops"
| "set_keys (Set now p v # ops) = p # set_keys ops"

fun cache_run :: "cache_op list \<Rightarrow> PathValidationCache \<Rightarrow> PathValidationCache" where
  "cache_run [] c = c"
| "cache_run (Get path # ops) c = cache_run ops c"
| "cache_run (Set now path validatedPath # ops) c =
     cache_run ops (cache_set now path validatedPath c)"


section \<open>Paths\<close>

text \<open>
  \<^verbatim>\<open>node:path\<close> is the runtime's, not the repository's. The functions the sources call
  are written out for POSIX paths, by segments, after the documented behaviour of Node:
  \<^verbatim>\<open>isAbsolute\<close>, \<^verbatim>\<open>normalize\<close>, \<^verbatim>\<open>resolve\<close>, \<^verbatim>\<open>join\<close> and \<^verbatim>\<open>dirname\<close>.
\<close>

definition isAbsolute :: "string \<Rightarrow> bool" where
  "isAbsolute p = (case p of [] \<Rightarrow> False | c # cs \<Rightarrow> c = CHR ''/'')"

fun normalizeSegments :: "bool \<Rightarrow> string list \<Rightarrow> string list \<Rightarrow> string list" where
  "normalizeSegments allowAboveRoot res [] = res"
| "normalizeSegments allowAboveRoot res (seg # segs) =
     (if seg = [] \<or> seg = ''.'' then normalizeSegments allowAboveRoot res segs
      else if seg = ''..'' then
        (if res \<noteq> [] \<and> last res \<noteq> ''..''
         then normalizeSegments allowAboveRoot (butlast res) segs
         else if allowAboveRoot then normalizeSegments allowAboveRoot (res @ [''..'']) segs
         else normalizeSegments allowAboveRoot res segs)
      else normalizeSegments allowAboveRoot (res @ [seg]) segs)"

definition normalizeString :: "string \<Rightarrow> bool \<Rightarrow> string" where
  "normalizeString p allowAboveRoot =
     join_with ''/'' (normalizeSegments allowAboveRoot [] (split_on (CHR ''/'') p))"

definition path_normalize :: "string \<Rightarrow> string" where
  "path_normalize p =
     (if p = [] then ''.''
      else
        let isAbs = (hd p = CHR ''/'');
            trailingSeparator = (last p = CHR ''/'');
            n = normalizeString p (\<not> isAbs)
        in if n = [] then (if isAbs then ''/'' else if trailingSeparator then ''./'' else ''.'')
           else
             let n' = (if trailingSeparator then n @ ''/'' else n)
             in if isAbs then ''/'' @ n' else n')"

text \<open>
  The loop of \<^verbatim>\<open>resolve\<close>, from the last argument to the first and then the working
  directory, until an absolute one is met.
\<close>

fun resolve_loop :: "string list \<Rightarrow> string \<Rightarrow> string \<times> bool" where
  "resolve_loop [] resolvedPath = (resolvedPath, False)"
| "resolve_loop (p # ps) resolvedPath =
     (if p = [] then resolve_loop ps resolvedPath
      else if hd p = CHR ''/'' then (p @ ''/'' @ resolvedPath, True)
      else resolve_loop ps (p @ ''/'' @ resolvedPath))"

definition path_resolve :: "string \<Rightarrow> string list \<Rightarrow> string" where
  "path_resolve workingDir args =
     (case resolve_loop (rev args @ [workingDir]) [] of
        (resolvedPath, resolvedAbsolute) \<Rightarrow>
          let n = normalizeString resolvedPath (\<not> resolvedAbsolute)
          in if resolvedAbsolute then ''/'' @ n else if n \<noteq> [] then n else ''.'')"

definition path_join :: "string list \<Rightarrow> string" where
  "path_join args =
     (let parts = filter (\<lambda>arg. arg \<noteq> []) args
      in if parts = [] then ''.'' else path_normalize (join_with ''/'' parts))"

text \<open>
  \<^verbatim>\<open>dirname\<close> scans from the end down to index 1: it skips the trailing slashes, then
  the last component, and cuts at the slash before it.
\<close>

definition path_dirname :: "string \<Rightarrow> string" where
  "path_dirname p =
     (if p = [] then ''.''
      else
        let hasRoot = (hd p = CHR ''/'');
            r = dropWhile (\<lambda>c. c \<noteq> CHR ''/'')
                  (dropWhile (\<lambda>c. c = CHR ''/'') (rev (tl p)))
        in if r = [] then (if hasRoot then ''/'' else ''.'')
           else if hasRoot \<and> length r = 1 then ''//''
           else take (length r) p)"

definition normalizePath :: "string \<Rightarrow> string" where
  "normalizePath p = path_normalize p"

definition expandHome :: "env \<Rightarrow> string \<Rightarrow> string" where
  "expandHome ev filepath =
     (if prefix ''~/'' filepath \<or> filepath = ''~''
      then path_join [homedir ev, drop 1 filepath]
      else filepath)"

text \<open>\<^verbatim>\<open>dirs.some((dir) => p.startsWith(dir))\<close>.\<close>

definition startsWithSome :: "string list \<Rightarrow> string \<Rightarrow> bool" where
  "startsWithSome dirs p = list_ex (\<lambda>dir. prefix dir p) dirs"

text \<open>\<^verbatim>\<open>path.isAbsolute(p) ? path.resolve(p) : path.resolve(process.cwd(), p)\<close>.\<close>

definition toAbsolute :: "env \<Rightarrow> string \<Rightarrow> string" where
  "toAbsolute ev expandedPath =
     (if isAbsolute expandedPath then path_resolve (cwd ev) [expandedPath]
      else path_resolve (cwd ev) [cwd ev, expandedPath])"


section \<open>validatePath of the path utilities\<close>

record Config =
  allowedDirectories :: "string list"

text \<open>
  \<^verbatim>\<open>validatePath(requestedPath, config)\<close> of the path utilities, with the global
  \<^verbatim>\<open>pathCache\<close> passed in and returned. The calls of the logger change neither the
  result nor the cache and are left out. The body of the outer \<^verbatim>\<open>try\<close>, the body of
  the inner \<^verbatim>\<open>try\<close> and the two \<^verbatim>\<open>catch\<close> blocks are one definition each.
\<close>

definition validatePath_try ::
  "env \<Rightarrow> Config \<Rightarrow> nat \<Rightarrow> PathValidationCache \<Rightarrow> string \<Rightarrow> string
     \<Rightarrow> (error + string) \<times> PathValidationCache" where
  "validatePath_try ev config now pc requestedPath absolute =
     (case realpath ev absolute of
        Inl code \<Rightarrow> (Inl (ErrnoException code), pc)
      | Inr realPath \<Rightarrow>
          let normalizedReal = normalizePath realPath
          in if \<not> startsWithSome (allowedDirectories config) normalizedReal then
               (Inl (newAccessDeniedError absolute
                  (Some ''Access denied - symlink target outside allowed directories'')), pc)
             else (Inr realPath, cache_set now requestedPath realPath pc))"

definition validatePath_parent_try ::
  "env \<Rightarrow> Config \<Rightarrow> nat \<Rightarrow> PathValidationCache \<Rightarrow> string \<Rightarrow> string \<Rightarrow> string
     \<Rightarrow> (error + string) \<times> PathValidationCache" where
  "validatePath_parent_try ev config now pc requestedPath absolute parentDir =
     (case realpath ev parentDir of
        Inl code \<Rightarrow> (Inl (ErrnoException code), pc)
      | Inr realParentPath \<Rightarrow>
          let normalizedParent = normalizePath realParentPath
          in if \<not> startsWithSome (allowedDirectories config) normalizedParent then
               (Inl (newAccessDeniedError parentDir
                  (Some ''Access denied - parent directory outside allowed directories'')), pc)
             else (Inr absolute, cache_set now requestedPath absolute pc))"

definition validatePath_catch ::
  "env \<Rightarrow> Config \<Rightarrow> nat \<Rightarrow> PathValidationCache \<Rightarrow> string \<Rightarrow> string \<Rightarrow> error
     \<Rightarrow> (error + string) \<times> PathValidationCache" where
  "validatePath_catch ev config now pc requestedPath absolute err =
     (if error_code err = Some ''ENOENT'' then
        let parentDir = path_dirname absolute
        in (case validatePath_parent_try ev config now pc requestedPath absolute parentDir of
              (Inr v, pc') \<Rightarrow> (Inr v, pc')
            | (Inl parentError, pc') \<Rightarrow>
                if error_code parentError = Some ''ENOENT''
                then (Inl (newPathNotFoundError parentDir), pc')
                else (Inl parentError, pc'))
      else (Inl err, pc))"

text \<open>\<^verbatim>\<open>if (cachedPath)\<close>: neither \<^verbatim>\<open>undefined\<close> nor the empty string.\<close>

definition truthy :: "string option \<Rightarrow> bool" where
  "truthy v = (case v of None \<Rightarrow> False | Some s \<Rightarrow> s \<noteq> [])"

definition validatePath ::
  "env \<Rightarrow> Config \<Rightarrow> nat \<Rightarrow> PathValidationCache \<Rightarrow> string
     \<Rightarrow> (error + string) \<times> PathValidationCache" where
  "validatePath ev config now pc requestedPath =
     (let cachedPath = cache_get pc requestedPath
      in if truthy cachedPath then (Inr (the cachedPath), pc)
         else
           let expandedPath = expandHome ev requestedPath;
               absolute = toAbsolute ev expandedPath;
               normalizedRequested = normalizePath absolute
           in if \<not> startsWithSome (allowedDirectories config) normalizedRequested then
                (Inl (newAccessDeniedError absolute None), pc)
              else
                (case validatePath_try ev config now pc requestedPath absolute of
                   (Inr v, pc') \<Rightarrow> (Inr v, pc')
                 | (Inl err, pc') \<Rightarrow>
                     validatePath_catch ev config now pc' requestedPath absolute err))"


section \<open>validatePath of the stand-alone server\<close>

text \<open>
  The stand-alone server has its own \<^verbatim>\<open>validatePath(requestedPath)\<close>, over the global
  \<^verbatim>\<open>allowedDirectories\<close>, without a cache, throwing plain Errors. Both of its
  \<^verbatim>\<open>catch\<close> blocks take every error, whatever it is.
\<close>

definition index_validatePath_try :: "env \<Rightarrow> string list \<Rightarrow> string \<Rightarrow> error + string" where
  "index_validatePath_try ev allowedDirs absolute =
     (case realpath ev absolute of
        Inl code \<Rightarrow> Inl (ErrnoException code)
      | Inr realPath \<Rightarrow>
          let normalizedReal = normalizePath realPath
          in if \<not> startsWithSome allowedDirs normalizedReal then
               Inl (JsError ''Access denied - symlink target outside allowed directories'')
             else Inr realPath)"

definition index_validatePath_parent_try ::
  "env \<Rightarrow> string list \<Rightarrow> string \<Rightarrow> string \<Rightarrow> error + string" where
  "index_validatePath_parent_try ev allowedDirs absolute parentDir =
     (case realpath ev parentDir of
        Inl code \<Rightarrow> Inl (ErrnoException code)
      | Inr realParentPath \<Rightarrow>
          let normalizedParent = normalizePath realParentPath
          in if \<not> startsWithSome allowedDirs normalizedParent then
               Inl (JsError ''Access denied - parent directory outside allowed directories'')
             else Inr absolute)"

definition index_validatePath :: "env \<Rightarrow> string list \<Rightarrow> string \<Rightarrow> error + string" where
  "index_validatePath ev allowedDirs requestedPath =
     (let expandedPath = expandHome ev requestedPath;
          absolute = toAbsolute ev expandedPath;
          normalizedRequested = normalizePath absolute
      in if \<not> startsWithSome allowedDirs normalizedRequested then
           Inl (JsError (''Access denied - path outside allowed directories: '' @ absolute
                  @ '' not in '' @ join_with '', '' allowedDirs))
         else
           (case index_validatePath_try ev allowedDirs absolute of
              Inr realPath \<Rightarrow> Inr realPath
            | Inl err \<Rightarrow>
                let parentDir = path_dirname absolute
                in (case index_validatePath_parent_try ev allowedDirs absolute parentDir of
                      Inr v \<Rightarrow> Inr v
                    | Inl parentError \<Rightarrow>
                        Inl (JsError (''Parent directory does not exist: '' @ parentDir)))))"


section \<open>editFile of the tool implementations\<close>

record EditFileArgs =
  path :: string
  edits :: "edit list"
  dryRun :: bool

text \<open>
  \<^verbatim>\<open>createUnifiedDiff\<close> of the tool implementations builds the fence itself.
\<close>

definition createUnifiedDiff :: "patcher \<Rightarrow> string \<Rightarrow> string \<Rightarrow> string \<Rightarrow> string" where
  "createUnifiedDiff createTwoFilesPatch originalContent modifiedContent filePath =
     fenced (createTwoFilesPatch filePath filePath originalContent modifiedContent
       ''Original'' ''Modified'')"

text \<open>
  \<^verbatim>\<open>editFile(args, config)\<close>: the value returned or the error thrown, the cache and the
  files afterwards. The metrics and the logger touch none of the three and are left out.
\<close>

definition editFile ::
  "patcher \<Rightarrow> env \<Rightarrow> Config \<Rightarrow> nat \<Rightarrow> PathValidationCache \<Rightarrow> files \<Rightarrow> EditFileArgs
     \<Rightarrow> (error + string) \<times> PathValidationCache \<times> files" where
  "editFile createTwoFilesPatch ev config now pc fs args =
     (case validatePath ev config now pc (path args) of
        (Inl err, pc') \<Rightarrow> (Inl err, pc', fs)
      | (Inr validPath, pc') \<Rightarrow>
          (case readFile fs validPath of
             Inl err \<Rightarrow> (Inl err, pc', fs)
           | Inr content \<Rightarrow>
               (case editFile_loop content False (edits args) of
                  Inl err \<Rightarrow> (Inl err, pc', fs)
                | Inr (modifiedContent, appliedAnyEdit) \<Rightarrow>
                    if \<not> appliedAnyEdit then
                      (Inr ''No changes made - all edit patterns were empty or not found'',
                       pc', fs)
                    else
                      let diff = createUnifiedDiff createTwoFilesPatch
                                   content modifiedContent validPath
                      in if \<not> dryRun args then
                           (case writeFile ev fs validPath modifiedContent of
                              Inl err \<Rightarrow> (Inl err, pc', fs)
                            | Inr fs' \<Rightarrow> (Inr diff, pc', fs'))
                         else (Inr diff, pc', fs))))"


section \<open>A sample machine\<close>

text \<open>
  The concrete inputs of the examples below: one allowed directory \<^verbatim>\<open>/allowed-dir\<close>
  holding a file, a symbolic link to a file outside and a symbolic link to a directory
  outside; a sibling directory \<^verbatim>\<open>/allowed-dirX\<close>; and \<^verbatim>\<open>/etc\<close>. \<open>realpath\<close> is
  the table of the paths that exist, with what each resolves to, and no write is
  rejected.
\<close>

definition sample_links :: "(string \<times> string) list" where
  "sample_links =
     [(''/allowed-dir'', ''/allowed-dir''),
      (''/allowed-dir/f.txt'', ''/allowed-dir/f.txt''),
      (''/allowed-dir/link'', ''/etc/passwd''),
      (''/allowed-dir/dirlink'', ''/etc''),
      (''/allowed-dirX'', ''/allowed-dirX''),
      (''/allowed-dirX/secret.txt'', ''/allowed-dirX/secret.txt''),
      (''/etc'', ''/etc''),
      (''/etc/passwd'', ''/etc/passwd'')]"

definition sample_env :: env where
  "sample_env =
     \<lparr>homedir = ''/home/user'', cwd = ''/allowed-dir'',
      realpath = (\<lambda>p. case map_of sample_links p of
                         None \<Rightarrow> Inl ''ENOENT''
                       | Some r \<Rightarrow> Inr r),
      writeError = (\<lambda>p. None)\<rparr>"

text \<open>The same machine with the allowed directory mounted read-only.\<close>

definition sample_env_readonly :: env where
  "sample_env_readonly = sample_env\<lparr>writeError := (\<lambda>p. Some ''EROFS'')\<rparr>"

definition sample_config :: Config where
  "sample_config = \<lparr>allowedDirectories = [''/allowed-dir'']\<rparr>"

text \<open>A stand-in for the diff package in the examples: it only lists the two texts.\<close>

definition sample_patch :: patcher where
  "sample_patch oldFileName newFileName oldStr newStr oldHeader newHeader =
     ''--- '' @ oldStr @ [LF] @ ''+++ '' @ newStr @ [LF]"


section \<open>Facts about the patch engine\<close>

text \<open>
  \<^verbatim>\<open>split\<close> never gives the empty array, so the branch
  \<^verbatim>\<open>oldLines.length === 0\<close> is never taken and the only error of one turn of the loop
  is the one for a text that was not found.
\<close>

lemma split_on_nonempty: "split_on c s \<noteq> []"
  by (induction s) (auto split: list.splits)

lemma applyEdit_emptyError: "applyEdit err1 content e = applyEdit err2 content e"
  by (simp add: applyEdit_def Let_def split_on_nonempty)

lemma applyEdit_not_found:
  assumes "findMatch 0 (split_on LF content) (split_on LF (replaceCRLF (oldText e)))
             (replaceCRLF (oldText e)) = None"
  shows "applyEdit emptyError content e =
           Inl (JsError (''Could not find exact match for edit:'' @ [LF] @ oldText e))"
  using assms by (simp add: applyEdit_def Let_def split_on_nonempty)

lemma applyEdit_error:
  "applyEdit emptyError content e = Inl err \<Longrightarrow>
     err = JsError (''Could not find exact match for edit:'' @ [LF] @ oldText e)"
  by (auto simp: applyEdit_def Let_def split_on_nonempty split: option.splits if_splits)

lemma applyFileEdits_loop_append:
  "applyFileEdits_loop content (pre @ rest) =
     (case applyFileEdits_loop content pre of
        Inl err \<Rightarrow> Inl err
      | Inr current \<Rightarrow> applyFileEdits_loop current rest)"
  by (induction pre arbitrary: content) (auto split: sum.splits)

lemma editFile_loop_eq:
  "editFile_loop content applied es =
     (case applyFileEdits_loop content es of
        Inl err \<Rightarrow> Inl err
      | Inr final \<Rightarrow> Inr (final, applied \<or> es \<noteq> []))"
proof (induction es arbitrary: content applied)
  case Nil
  show ?case by simp
next
  case (Cons e es)
  have same: "applyEdit (newInvalidArgumentsError ''edit_file'' ''Edit operation contains empty oldText'') content e
      = applyEdit (JsError ''Edit operation contains empty oldText'') content e"
    by (rule applyEdit_emptyError)
  show ?case
    by (simp add: same Cons.IH split: sum.splits)
qed

lemma applyFileEdits_loop_error:
  "applyFileEdits_loop content es = Inl err \<Longrightarrow>
     \<exists>e \<in> set es. err = JsError (''Could not find exact match for edit:'' @ [LF] @ oldText e)"
proof (induction es arbitrary: content)
  case Nil
  then show ?case by simp
next
  case (Cons e es)
  then show ?case
    by (auto split: sum.splits dest: applyEdit_error)
qed

text \<open>
  What the search returns: nothing exactly when no offset in range matches, and
  otherwise the lowest offset that does.
\<close>

lemma findMatch_None_iff:
  "findMatch i contentLines oldLines normalizedOld = None \<longleftrightarrow>
     (\<forall>j\<ge>i. int j \<le> int (length contentLines) - int (length oldLines) \<longrightarrow>
        join_with [LF] (take (length oldLines) (drop j contentLines)) \<noteq> normalizedOld)"
proof (induction i contentLines oldLines normalizedOld rule: findMatch.induct)
  case (1 i contentLines oldLines normalizedOld)
  show ?case
  proof (cases "int i \<le> int (length contentLines) - int (length oldLines)")
    case False
    then show ?thesis
      by (subst findMatch.simps) auto
  next
    case inrange: True
    show ?thesis
    proof (cases "join_with [LF] (take (length oldLines) (drop i contentLines)) = normalizedOld")
      case True
      with inrange show ?thesis
        by (subst findMatch.simps) auto
    next
      case False
      have "findMatch i contentLines oldLines normalizedOld
              = findMatch (Suc i) contentLines oldLines normalizedOld"
        using inrange False by (subst findMatch.simps) simp
      also have "\<dots> = None \<longleftrightarrow>
          (\<forall>j\<ge>Suc i. int j \<le> int (length contentLines) - int (length oldLines) \<longrightarrow>
             join_with [LF] (take (length oldLines) (drop j contentLines)) \<noteq> normalizedOld)"
        using "1.IH" [OF inrange False] .
      also have "\<dots> \<longleftrightarrow>
          (\<forall>j\<ge>i. int j \<le> int (length contentLines) - int (length oldLines) \<longrightarrow>
             join_with [LF] (take (length oldLines) (drop j contentLines)) \<noteq> normalizedOld)"
        using False by (metis Suc_leD Suc_le_eq le_neq_implies_less)
      finally show ?thesis .
    qed
  qed
qed

lemma findMatch_Some_first:
  "findMatch i contentLines oldLines normalizedOld = Some k \<Longrightarrow>
     i \<le> k \<and> int k \<le> int (length contentLines) - int (length oldLines) \<and>
     join_with [LF] (take (length oldLines) (drop k contentLines)) = normalizedOld \<and>
     (\<forall>j. i \<le> j \<and> j < k \<longrightarrow>
        join_with [LF] (take (length oldLines) (drop j contentLines)) \<noteq> normalizedOld)"
proof (induction i contentLines oldLines normalizedOld rule: findMatch.induct)
  case (1 i contentLines oldLines normalizedOld)
  show ?case
  proof (cases "int i \<le> int (length contentLines) - int (length oldLines)")
    case False
    with "1.prems" show ?thesis
      by (subst (asm) findMatch.simps) simp
  next
    case inrange: True
    show ?thesis
    proof (cases "join_with [LF] (take (length oldLines) (drop i contentLines)) = normalizedOld")
      case True
      with inrange "1.prems" show ?thesis
        by (subst (asm) findMatch.simps) auto
    next
      case False
      have "findMatch (Suc i) contentLines oldLines normalizedOld = Some k"
        using inrange False "1.prems" by (subst (asm) findMatch.simps) simp
      from "1.IH" [OF inrange False this] False show ?thesis
        by (metis Suc_leD Suc_le_eq le_neq_implies_less)
    qed
  qed
qed

text \<open>The fence has at least three backticks, so a fenced diff starts with one.\<close>

lemma numBackticks_ge: "n \<le> numBackticks diff n"
proof (induction diff n rule: numBackticks.induct)
  case (1 diff n)
  show ?case
  proof (cases "includes_str diff (replicate n (CHR 0x60))")
    case True
    with "1.IH" have "Suc n \<le> numBackticks diff (Suc n)" by simp
    with True show ?thesis by (subst numBackticks.simps) simp
  next
    case False
    then show ?thesis by (subst numBackticks.simps) simp
  qed
qed

lemma fenced_starts_with_fence: "\<exists>rest. fenced diff = CHR 0x60 # rest"
proof -
  have "3 \<le> numBackticks diff 3" by (rule numBackticks_ge)
  then obtain k where "numBackticks diff 3 = Suc k"
    by (cases "numBackticks diff 3") auto
  then show ?thesis by (simp add: fenced_def Let_def)
qed

lemmas edit_defs = index_applyFileEdits_def readFile_def writeFile_def applyEdit_def
  findMatch.simps reindent_def trimStart_def leadingWhitespace_def isWhitespace_def
  index_createUnifiedDiff_def createUnifiedDiff_def Let_def newInvalidArgumentsError_def

lemmas path_defs = validatePath_def cache_get_def truthy_def expandHome_def toAbsolute_def
  isAbsolute_def path_resolve_def normalizeString_def path_normalize_def normalizePath_def
  startsWithSome_def validatePath_try_def validatePath_catch_def validatePath_parent_try_def
  path_dirname_def path_join_def newAccessDeniedError_def newPathNotFoundError_def
  index_validatePath_def index_validatePath_try_def index_validatePath_parent_try_def
  sample_env_def sample_links_def sample_config_def pathCache_def newPathValidationCache_def
  cache_set_def evictOldest_def

lemma sample_writeError: "writeError sample_env p = None"
  by (simp add: sample_env_def)

lemma sample_validatePath_file:
  "validatePath sample_env sample_config 0 pathCache ''/allowed-dir/f.txt'' =
     (Inr ''/allowed-dir/f.txt'',
      cache_set 0 ''/allowed-dir/f.txt'' ''/allowed-dir/f.txt'' pathCache)"
  by (simp add: path_defs Let_def)

text \<open>
  C4. The claim: line endings are normalized (CRLF to LF) in the document as well as in
  oldText and newText before matching, so a document and an edit that differ only in
  CRLF against LF still match. The code normalizes oldText and newText only; the
  document is split at LF as it is, and its lines keep their CR. A document
  \<^verbatim>\<open>a\r\nb\<close> is therefore matched neither by the oldText \<^verbatim>\<open>a\r\nb\<close>, which is the
  document itself, nor by \<^verbatim>\<open>a\nb\<close>: both calls throw the not-found Error and write
  nothing. The last line is the contrast: the CRLF of an oldText is normalized, and
  matches an LF document.
\<close>

theorem crlf_document_is_not_normalized:
  "index_applyFileEdits P ev [''/allowed-dir/f.txt'' \<mapsto> ''a'' @ [CR, LF] @ ''b'']
       ''/allowed-dir/f.txt'' [\<lparr>oldText = ''a'' @ [CR, LF] @ ''b'', newText = ''c''\<rparr>] False
     = (Inl (JsError (''Could not find exact match for edit:'' @ [LF] @ ''a'' @ [CR, LF] @ ''b'')),
        [''/allowed-dir/f.txt'' \<mapsto> ''a'' @ [CR, LF] @ ''b''])
   \<and> editFile P sample_env sample_config 0 pathCache
       [''/allowed-dir/f.txt'' \<mapsto> ''a'' @ [CR, LF] @ ''b'']
       \<lparr>path = ''/allowed-dir/f.txt'',
        edits = [\<lparr>oldText = ''a\<newline>b'', newText = ''c''\<rparr>], dryRun = False\<rparr>
     = (Inl (JsError (''Could not find exact match for edit:'' @ [LF] @ ''a\<newline>b'')),
        cache_set 0 ''/allowed-dir/f.txt'' ''/allowed-dir/f.txt'' pathCache,
        [''/allowed-dir/f.txt'' \<mapsto> ''a'' @ [CR, LF] @ ''b''])
   \<and> editFile_loop ''a\<newline>b'' False [\<lparr>oldText = ''a'' @ [CR, LF] @ ''b'', newText = ''c''\<rparr>]
     = Inr (''c'', True)"
  by (simp add: editFile_def sample_validatePath_file edit_defs)

text \<open>
  C5. The claim: an edit whose oldText is the empty string is rejected with
  InvalidArguments instead of being matched. In the code the test is
  \<^verbatim>\<open>oldLines.length === 0\<close> on the result of \<^verbatim>\<open>split\<close>, which has at least one
  element, so neither loop ever throws its empty-oldText error (first two lines). The
  empty oldText is matched like any other: it replaces the first empty line of the
  document (third and fourth line, where the file is rewritten), and without an empty
  line it ends in the not-found Error (last line).
\<close>

theorem empty_oldText_is_matched_not_rejected:
  "(\<forall>content applied es.
      editFile_loop content applied es \<noteq>
        Inl (newInvalidArgumentsError ''edit_file'' ''Edit operation contains empty oldText''))
   \<and> (\<forall>content es.
      applyFileEdits_loop content es \<noteq> Inl (JsError ''Edit operation contains empty oldText''))
   \<and> editFile P sample_env sample_config 0 pathCache
        [''/allowed-dir/f.txt'' \<mapsto> ''a\<newline>\<newline>b'']
        \<lparr>path = ''/allowed-dir/f.txt'',
         edits = [\<lparr>oldText = '''', newText = ''c''\<rparr>], dryRun = False\<rparr>
      = (Inr (createUnifiedDiff P ''a\<newline>\<newline>b'' ''a\<newline>c\<newline>b'' ''/allowed-dir/f.txt''),
         cache_set 0 ''/allowed-dir/f.txt'' ''/allowed-dir/f.txt'' pathCache,
         [''/allowed-dir/f.txt'' \<mapsto> ''a\<newline>c\<newline>b''])
   \<and> index_applyFileEdits P sample_env [''/allowed-dir/f.txt'' \<mapsto> ''a\<newline>\<newline>b'']
        ''/allowed-dir/f.txt'' [\<lparr>oldText = '''', newText = ''c''\<rparr>] False
      = (Inr (fenced (P ''/allowed-dir/f.txt'' ''/allowed-dir/f.txt'' ''a\<newline>\<newline>b''
                ''a\<newline>c\<newline>b'' ''Original'' ''Modified'')),
         [''/allowed-dir/f.txt'' \<mapsto> ''a\<newline>c\<newline>b''])
   \<and> index_applyFileEdits P sample_env [''/allowed-dir/f.txt'' \<mapsto> ''ab'']
        ''/allowed-dir/f.txt'' [\<lparr>oldText = '''', newText = ''c''\<rparr>] False
      = (Inl (JsError (''Could not find exact match for edit:'' @ [LF])),
         [''/allowed-dir/f.txt'' \<mapsto> ''ab''])"
proof -
  have never1: "editFile_loop content applied es \<noteq>
        Inl (newInvalidArgumentsError ''edit_file'' ''Edit operation contains empty oldText'')"
    for content applied es
    using applyFileEdits_loop_error [of content es]
    by (auto simp: editFile_loop_eq newInvalidArgumentsError_def split: sum.splits)
  have never2: "applyFileEdits_loop content es \<noteq>
        Inl (JsError ''Edit operation contains empty oldText'')"
    for content es
    using applyFileEdits_loop_error [of content es] by auto
  have run1: "editFile P sample_env sample_config 0 pathCache
        [''/allowed-dir/f.txt'' \<mapsto> ''a\<newline>\<newline>b'']
        \<lparr>path = ''/allowed-dir/f.txt'',
         edits = [\<lparr>oldText = '''', newText = ''c''\<rparr>], dryRun = False\<rparr>
      = (Inr (createUnifiedDiff P ''a\<newline>\<newline>b'' ''a\<newline>c\<newline>b'' ''/allowed-dir/f.txt''),
         cache_set 0 ''/allowed-dir/f.txt'' ''/allowed-dir/f.txt'' pathCache,
         [''/allowed-dir/f.txt'' \<mapsto> ''a\<newline>c\<newline>b''])"
    by (simp add: editFile_def sample_validatePath_file sample_writeError edit_defs)
  have run2: "index_applyFileEdits P sample_env [''/allowed-dir/f.txt'' \<mapsto> ''a\<newline>\<newline>b'']
        ''/allowed-dir/f.txt'' [\<lparr>oldText = '''', newText = ''c''\<rparr>] False
      = (Inr (fenced (P ''/allowed-dir/f.txt'' ''/allowed-dir/f.txt'' ''a\<newline>\<newline>b''
                ''a\<newline>c\<newline>b'' ''Original'' ''Modified'')),
         [''/allowed-dir/f.txt'' \<mapsto> ''a\<newline>c\<newline>b''])"
    by (simp add: sample_writeError edit_defs)
  have run3: "index_applyFileEdits P sample_env [''/allowed-dir/f.txt'' \<mapsto> ''ab'']
        ''/allowed-dir/f.txt'' [\<lparr>oldText = '''', newText = ''c''\<rparr>] False
      = (Inl (JsError (''Could not find exact match for edit:'' @ [LF])),
         [''/allowed-dir/f.txt'' \<mapsto> ''ab''])"
    by (simp add: edit_defs)
  from never1 never2 run1 run2 run3 show ?thesis by blast
qed


text \<open>
  C6. For every edit list that holds an edit whose oldText has no exact match in the
  document as the edits before it left it, the call fails with the not-found Error
  (\<^verbatim>\<open>Could not find exact match for edit\<close>, the spec's EditNotFound) and the files are
  what they were: nothing of the earlier edits is written, since the only write comes
  after the loop. It holds for \<^verbatim>\<open>applyFileEdits\<close> on a validated path and for
  \<^verbatim>\<open>editFile\<close>, whatever \<^verbatim>\<open>dryRun\<close> is. \<open>pre\<close> are the edits before the failing one,
  \<open>current\<close> the text they produce, and no offset of \<open>current\<close> matches: the search
  of the code finds nothing, which by \<open>findMatch_None_iff\<close> is to say that no offset in
  range matches.
\<close>

theorem edit_not_found_leaves_file_unwritten:
  assumes valid: "validatePath ev config now pc (path args) = (Inr filePath, pc')"
    and read: "readFile fs filePath = Inr content"
    and listed: "edits args = pre @ e # post"
    and prior: "applyFileEdits_loop content pre = Inr current"
    and nomatch: "findMatch 0 (split_on LF current) (split_on LF (replaceCRLF (oldText e)))
                    (replaceCRLF (oldText e)) = None"
  shows "index_applyFileEdits P ev fs filePath (edits args) (dryRun args) =
           (Inl (JsError (''Could not find exact match for edit:'' @ [LF] @ oldText e)), fs)
       \<and> editFile P ev config now pc fs args =
           (Inl (JsError (''Could not find exact match for edit:'' @ [LF] @ oldText e)), pc', fs)"
proof -
  let ?notFound = "JsError (''Could not find exact match for edit:'' @ [LF] @ oldText e)"
  have step: "applyEdit (JsError ''Edit operation contains empty oldText'') current e
                = Inl ?notFound"
    using nomatch by (rule applyEdit_not_found)
  have loop: "applyFileEdits_loop content (edits args) = Inl ?notFound"
    by (simp add: listed applyFileEdits_loop_append prior step)
  have loop': "editFile_loop content False (edits args) = Inl ?notFound"
    by (simp add: editFile_loop_eq loop)
  have index: "index_applyFileEdits P ev fs filePath (edits args) (dryRun args)
                 = (Inl ?notFound, fs)"
    by (simp add: index_applyFileEdits_def read loop)
  have tool: "editFile P ev config now pc fs args = (Inl ?notFound, pc', fs)"
    by (simp add: editFile_def valid read loop')
  from index tool show ?thesis ..
qed

theorem edit_not_found_leaves_file_unwritten_witness:
  "index_applyFileEdits sample_patch sample_env [''/allowed-dir/f.txt'' \<mapsto> ''one\<newline>two'']
       ''/allowed-dir/f.txt''
       [\<lparr>oldText = ''one'', newText = ''uno''\<rparr>, \<lparr>oldText = ''three'', newText = ''tres''\<rparr>]
       False
     = (Inl (JsError (''Could not find exact match for edit:'' @ [LF] @ ''three'')),
        [''/allowed-dir/f.txt'' \<mapsto> ''one\<newline>two''])
   \<and> editFile sample_patch sample_env sample_config 0 pathCache
       [''/allowed-dir/f.txt'' \<mapsto> ''one\<newline>two'']
       \<lparr>path = ''/allowed-dir/f.txt'',
        edits = [\<lparr>oldText = ''one'', newText = ''uno''\<rparr>,
                 \<lparr>oldText = ''three'', newText = ''tres''\<rparr>],
        dryRun = False\<rparr>
     = (Inl (JsError (''Could not find exact match for edit:'' @ [LF] @ ''three'')),
        cache_set 0 ''/allowed-dir/f.txt'' ''/allowed-dir/f.txt'' pathCache,
        [''/allowed-dir/f.txt'' \<mapsto> ''one\<newline>two''])"
proof -
  let ?args = "\<lparr>path = ''/allowed-dir/f.txt'',
        edits = [\<lparr>oldText = ''one'', newText = ''uno''\<rparr>,
                 \<lparr>oldText = ''three'', newText = ''tres''\<rparr>],
        dryRun = False\<rparr>"
  let ?fs = "[''/allowed-dir/f.txt'' \<mapsto> ''one\<newline>two'']"
  have valid: "validatePath sample_env sample_config 0 pathCache (path ?args)
      = (Inr ''/allowed-dir/f.txt'',
         cache_set 0 ''/allowed-dir/f.txt'' ''/allowed-dir/f.txt'' pathCache)"
    by (simp add: sample_validatePath_file)
  have read: "readFile ?fs ''/allowed-dir/f.txt'' = Inr ''one\<newline>two''"
    by (simp add: readFile_def)
  have listed: "edits ?args =
      [\<lparr>oldText = ''one'', newText = ''uno''\<rparr>] @ \<lparr>oldText = ''three'', newText = ''tres''\<rparr> # []"
    by simp
  have prior: "applyFileEdits_loop ''one\<newline>two'' [\<lparr>oldText = ''one'', newText = ''uno''\<rparr>]
      = Inr ''uno\<newline>two''"
    by (simp add: edit_defs)
  have nomatch: "findMatch 0 (split_on LF ''uno\<newline>two'')
      (split_on LF (replaceCRLF (oldText \<lparr>oldText = ''three'', newText = ''tres''\<rparr>)))
      (replaceCRLF (oldText \<lparr>oldText = ''three'', newText = ''tres''\<rparr>)) = None"
    by (simp add: findMatch.simps)
  from edit_not_found_leaves_file_unwritten [OF valid read listed prior nomatch, of sample_patch]
  show ?thesis by simp
qed

text \<open>
  C7. With \<^verbatim>\<open>dryRun\<close> true the files are unchanged, for every edit list and on every
  machine (first two lines), and when the edits apply the call still returns the fenced
  unified diff of the original text against the final one: \<^verbatim>\<open>applyFileEdits\<close> for any
  number of edits, \<^verbatim>\<open>editFile\<close> for at least one. Given no edits at all, \<^verbatim>\<open>editFile\<close>
  returns its message that no changes were made (last line).
\<close>

theorem dry_run_writes_nothing:
  "snd (index_applyFileEdits P ev fs filePath es True) = fs
   \<and> snd (snd (editFile P ev config now pc fs (args\<lparr>dryRun := True\<rparr>))) = fs
   \<and> (readFile fs filePath = Inr content \<and> applyFileEdits_loop content es = Inr final \<longrightarrow>
        fst (index_applyFileEdits P ev fs filePath es True)
          = Inr (fenced (P filePath filePath content final ''Original'' ''Modified'')))
   \<and> (fst (validatePath ev config now pc (path args)) = Inr filePath \<and>
      readFile fs filePath = Inr content \<and>
      applyFileEdits_loop content (edits args) = Inr final \<and> edits args \<noteq> [] \<longrightarrow>
        fst (editFile P ev config now pc fs (args\<lparr>dryRun := True\<rparr>))
          = Inr (fenced (P filePath filePath content final ''Original'' ''Modified'')))
   \<and> (fst (validatePath ev config now pc (path args)) = Inr filePath \<and>
      readFile fs filePath = Inr content \<and> edits args = [] \<longrightarrow>
        fst (editFile P ev config now pc fs (args\<lparr>dryRun := True\<rparr>))
          = Inr ''No changes made - all edit patterns were empty or not found'')"
proof -
  have a: "snd (index_applyFileEdits P ev fs filePath es True) = fs"
    by (simp add: index_applyFileEdits_def Let_def split: sum.splits)
  have b: "snd (snd (editFile P ev config now pc fs (args\<lparr>dryRun := True\<rparr>))) = fs"
    by (simp add: editFile_def Let_def split: sum.splits prod.splits)
  have e: "fst (index_applyFileEdits P ev fs filePath es True)
          = Inr (fenced (P filePath filePath content final ''Original'' ''Modified''))"
    if "readFile fs filePath = Inr content" "applyFileEdits_loop content es = Inr final"
    using that by (simp add: index_applyFileEdits_def index_createUnifiedDiff_def Let_def)
  have f: "fst (editFile P ev config now pc fs (args\<lparr>dryRun := True\<rparr>))
          = Inr (fenced (P filePath filePath content final ''Original'' ''Modified''))"
    if "fst (validatePath ev config now pc (path args)) = Inr filePath"
      "readFile fs filePath = Inr content"
      "applyFileEdits_loop content (edits args) = Inr final" "edits args \<noteq> []"
    using that
    by (cases "validatePath ev config now pc (path args)")
       (simp add: editFile_def editFile_loop_eq createUnifiedDiff_def Let_def)
  have g: "fst (editFile P ev config now pc fs (args\<lparr>dryRun := True\<rparr>))
          = Inr ''No changes made - all edit patterns were empty or not found''"
    if "fst (validatePath ev config now pc (path args)) = Inr filePath"
      "readFile fs filePath = Inr content" "edits args = []"
    using that
    by (cases "validatePath ev config now pc (path args)") (simp add: editFile_def)
  from a b e f g show ?thesis by blast
qed

text \<open>
  The witness is on the machine whose allowed directory is mounted read-only, where the
  call that writes is rejected: the dry run returns the diff all the same.
\<close>

theorem dry_run_writes_nothing_witness:
  "index_applyFileEdits sample_patch sample_env_readonly
       [''/allowed-dir/f.txt'' \<mapsto> ''one\<newline>two'']
       ''/allowed-dir/f.txt'' [\<lparr>oldText = ''one'', newText = ''uno''\<rparr>] True
     = (Inr (fenced (sample_patch ''/allowed-dir/f.txt'' ''/allowed-dir/f.txt''
                ''one\<newline>two'' ''uno\<newline>two'' ''Original'' ''Modified'')),
        [''/allowed-dir/f.txt'' \<mapsto> ''one\<newline>two''])
   \<and> fst (editFile sample_patch sample_env_readonly sample_config 0 pathCache
       [''/allowed-dir/f.txt'' \<mapsto> ''one\<newline>two'']
       \<lparr>path = ''/allowed-dir/f.txt'',
        edits = [\<lparr>oldText = ''one'', newText = ''uno''\<rparr>], dryRun = True\<rparr>)
     = Inr (fenced (sample_patch ''/allowed-dir/f.txt'' ''/allowed-dir/f.txt''
                ''one\<newline>two'' ''uno\<newline>two'' ''Original'' ''Modified''))
   \<and> snd (snd (editFile sample_patch sample_env_readonly sample_config 0 pathCache
       [''/allowed-dir/f.txt'' \<mapsto> ''one\<newline>two'']
       \<lparr>path = ''/allowed-dir/f.txt'',
        edits = [\<lparr>oldText = ''one'', newText = ''uno''\<rparr>], dryRun = True\<rparr>))
     = [''/allowed-dir/f.txt'' \<mapsto> ''one\<newline>two'']"
proof -
  let ?args = "\<lparr>path = ''/allowed-dir/f.txt'',
        edits = [\<lparr>oldText = ''one'', newText = ''uno''\<rparr>], dryRun = True\<rparr>"
  let ?fs = "[''/allowed-dir/f.txt'' \<mapsto> ''one\<newline>two'']"
  let ?diff = "fenced (sample_patch ''/allowed-dir/f.txt'' ''/allowed-dir/f.txt''
                ''one\<newline>two'' ''uno\<newline>two'' ''Original'' ''Modified'')"
  have upd: "?args\<lparr>dryRun := True\<rparr> = ?args"
    by simp
  have valid: "fst (validatePath sample_env_readonly sample_config 0 pathCache (path ?args))
      = Inr ''/allowed-dir/f.txt''"
    by (simp add: sample_env_readonly_def path_defs Let_def)
  have read: "readFile ?fs ''/allowed-dir/f.txt'' = Inr ''one\<newline>two''"
    by (simp add: readFile_def)
  have loop: "applyFileEdits_loop ''one\<newline>two'' [\<lparr>oldText = ''one'', newText = ''uno''\<rparr>]
      = Inr ''uno\<newline>two''"
    by (simp add: edit_defs)
  have loop': "applyFileEdits_loop ''one\<newline>two'' (edits ?args) = Inr ''uno\<newline>two''"
    using loop by simp
  have some: "edits ?args \<noteq> []"
    by simp
  note inst = dry_run_writes_nothing [of sample_patch sample_env_readonly ?fs
      "''/allowed-dir/f.txt''" "[\<lparr>oldText = ''one'', newText = ''uno''\<rparr>]" sample_config 0
      pathCache ?args "''one\<newline>two''" "''uno\<newline>two''", unfolded upd]
  from inst have frame1: "snd (index_applyFileEdits sample_patch sample_env_readonly ?fs
      ''/allowed-dir/f.txt'' [\<lparr>oldText = ''one'', newText = ''uno''\<rparr>] True) = ?fs"
    by blast
  from inst have frame2: "snd (snd (editFile sample_patch sample_env_readonly sample_config 0
      pathCache ?fs ?args)) = ?fs"
    by blast
  from inst read loop have diff1: "fst (index_applyFileEdits sample_patch sample_env_readonly
      ?fs ''/allowed-dir/f.txt'' [\<lparr>oldText = ''one'', newText = ''uno''\<rparr>] True) = Inr ?diff"
    by blast
  from inst valid read loop' some have diff2: "fst (editFile sample_patch sample_env_readonly
      sample_config 0 pathCache ?fs ?args) = Inr ?diff"
    by blast
  from frame1 diff1 have "index_applyFileEdits sample_patch sample_env_readonly ?fs
      ''/allowed-dir/f.txt'' [\<lparr>oldText = ''one'', newText = ''uno''\<rparr>] True = (Inr ?diff, ?fs)"
    by (simp add: prod_eq_iff)
  with diff2 frame2 show ?thesis
    by blast
qed

text \<open>
  The claim as it stands, with the diff returned for every edit list, fails for
  \<^verbatim>\<open>editFile\<close> at the empty list: the dry run returns the message, which is not the
  fenced diff of the unchanged text.
\<close>

theorem dry_run_without_edits_returns_message:
  "editFile sample_patch sample_env sample_config 0 pathCache
       [''/allowed-dir/f.txt'' \<mapsto> ''one\<newline>two'']
       \<lparr>path = ''/allowed-dir/f.txt'', edits = [], dryRun = True\<rparr>
     = (Inr ''No changes made - all edit patterns were empty or not found'',
        cache_set 0 ''/allowed-dir/f.txt'' ''/allowed-dir/f.txt'' pathCache,
        [''/allowed-dir/f.txt'' \<mapsto> ''one\<newline>two''])
   \<and> createUnifiedDiff sample_patch ''one\<newline>two'' ''one\<newline>two'' ''/allowed-dir/f.txt''
       \<noteq> ''No changes made - all edit patterns were empty or not found''"
proof -
  have run: "editFile sample_patch sample_env sample_config 0 pathCache
       [''/allowed-dir/f.txt'' \<mapsto> ''one\<newline>two'']
       \<lparr>path = ''/allowed-dir/f.txt'', edits = [], dryRun = True\<rparr>
     = (Inr ''No changes made - all edit patterns were empty or not found'',
        cache_set 0 ''/allowed-dir/f.txt'' ''/allowed-dir/f.txt'' pathCache,
        [''/allowed-dir/f.txt'' \<mapsto> ''one\<newline>two''])"
    by (simp add: editFile_def sample_validatePath_file readFile_def)
  obtain rest where "createUnifiedDiff sample_patch ''one\<newline>two'' ''one\<newline>two''
      ''/allowed-dir/f.txt'' = CHR 0x60 # rest"
    using fenced_starts_with_fence by (auto simp: createUnifiedDiff_def)
  then have differ: "createUnifiedDiff sample_patch ''one\<newline>two'' ''one\<newline>two''
      ''/allowed-dir/f.txt'' \<noteq> ''No changes made - all edit patterns were empty or not found''"
    by simp
  from run differ show ?thesis ..
qed

text \<open>
  On the read-only mount the call that writes throws the rejection of the write, after
  the edits have applied, and the file is what it was.
\<close>

lemma write_rejected_on_readonly_mount:
  "index_applyFileEdits P sample_env_readonly [''/allowed-dir/f.txt'' \<mapsto> ''one\<newline>two'']
       ''/allowed-dir/f.txt'' [\<lparr>oldText = ''one'', newText = ''uno''\<rparr>] False
     = (Inl (ErrnoException ''EROFS''), [''/allowed-dir/f.txt'' \<mapsto> ''one\<newline>two''])"
  by (simp add: sample_env_readonly_def edit_defs)


section \<open>Facts about the validation cache\<close>

lemma length_update_alist:
  "length (AList.update k v m) = (if k \<in> fst ` set m then length m else Suc (length m))"
  by (induction m) auto

lemma length_delete_present:
  "k \<in> fst ` set m \<Longrightarrow> length (AList.delete k m) < length m"
  by (induction m) (auto simp: le_imp_less_Suc AList.length_delete_le)

lemma evictOldest_oldest:
  assumes "m = (k0, v0) # rest" "k0 \<noteq> []" "distinct (map fst m)"
  shows "evictOldest m = rest"
  using assms by (auto simp: evictOldest_def)

lemma evictOldest_shrinks:
  assumes "m \<noteq> []" "fst (hd m) \<noteq> []"
  shows "length (evictOldest m) < length m"
proof (cases m)
  case Nil
  with assms show ?thesis by simp
next
  case (Cons kv rest)
  obtain k0 v0 where kv: "kv = (k0, v0)" by (cases kv)
  have "k0 \<in> fst ` set m" using Cons kv by simp
  from length_delete_present [OF this] assms Cons kv show ?thesis
    by (simp add: evictOldest_def)
qed

lemma evictOldest_keys: "fst ` set (evictOldest m) \<subseteq> fst ` set m"
proof (cases m)
  case Nil
  then show ?thesis by (simp add: evictOldest_def)
next
  case (Cons kv rest)
  obtain k0 v0 where kv: "kv = (k0, v0)" by (cases kv)
  show ?thesis
  proof (cases "k0 = []")
    case True
    then show ?thesis by (simp add: evictOldest_def Cons kv)
  next
    case False
    then have "evictOldest m = AList.delete k0 m"
      by (simp add: evictOldest_def Cons kv)
    then show ?thesis
      using AList.dom_delete_subset [of k0 m] by simp
  qed
qed

lemma cache_set_keys:
  "fst ` set (cache (cache_set now p v c)) \<subseteq> insert p (fst ` set (cache c))"
proof -
  have "fst ` set (cache (cache_set now p v c)) =
          insert p (fst ` set (if int (length (cache c)) \<ge> maxSize c
                                then evictOldest (cache c) else cache c))"
    by (simp add: cache_set_def Let_def AList.dom_update)
  with evictOldest_keys [of "cache c"] show ?thesis
    by (auto split: if_splits)
qed

lemma cache_set_fields [simp]:
  "maxSize (cache_set now p v c) = maxSize c" "ttl (cache_set now p v c) = ttl c"
  "timers (cache_set now p v c) = timers c @ [(now + timerDelay (ttl c), p)]"
  by (simp_all add: cache_set_def Let_def)

text \<open>
  Where the bound does hold: with a capacity of at least one and no empty key, neither in
  the map nor among the keys set, a call of \<^verbatim>\<open>set\<close> keeps the size within the capacity,
  and so does every sequence of calls.
\<close>

lemma cache_set_size_bound:
  assumes cap: "1 \<le> maxSize c"
    and bound: "int (length (cache c)) \<le> maxSize c"
    and keys: "\<forall>k \<in> fst ` set (cache c). k \<noteq> []"
  shows "int (length (cache (cache_set now p v c))) \<le> maxSize c"
proof (cases "int (length (cache c)) \<ge> maxSize c")
  case False
  then show ?thesis
    by (simp add: cache_set_def length_update_alist)
next
  case True
  with cap have ne: "cache c \<noteq> []" by auto
  then have "fst (hd (cache c)) \<in> fst ` set (cache c)" by simp
  with keys have "fst (hd (cache c)) \<noteq> []" by blast
  from evictOldest_shrinks [OF ne this] bound True show ?thesis
    by (simp add: cache_set_def length_update_alist)
qed

lemma cache_run_size_bound:
  assumes "1 \<le> maxSize c" "int (length (cache c)) \<le> maxSize c"
    "\<forall>k \<in> fst ` set (cache c). k \<noteq> []" "\<forall>k \<in> set (set_keys ops). k \<noteq> []"
  shows "int (length (cache (cache_run ops c))) \<le> maxSize c
       \<and> maxSize (cache_run ops c) = maxSize c"
  using assms
proof (induction ops c rule: cache_run.induct)
  case (1 c)
  then show ?case by simp
next
  case (2 p ops c)
  then show ?case by simp
next
  case (3 now p v ops c)
  let ?c' = "cache_set now p v c"
  have b: "int (length (cache ?c')) \<le> maxSize ?c'"
    using cache_set_size_bound [OF "3.prems"(1,2,3)] by simp
  have "p \<noteq> []" using "3.prems"(4) by simp
  with "3.prems"(3) have "\<forall>k \<in> insert p (fst ` set (cache c)). k \<noteq> []"
    by blast
  with cache_set_keys [of now p v c] have k: "\<forall>k \<in> fst ` set (cache ?c'). k \<noteq> []"
    by blast
  have "int (length (cache (cache_run ops ?c'))) \<le> maxSize ?c'
      \<and> maxSize (cache_run ops ?c') = maxSize ?c'"
    using "3.IH" "3.prems" b k by simp
  then show ?case by simp
qed

text \<open>The timers only delete, so the size never grows when they run.\<close>

lemma runTimers_size: "length (cache (runTimers t c)) \<le> length (cache c)"
proof -
  have "length (fold (\<lambda>(due, path) m. AList.delete path m) ds m) \<le> length m"
    for ds :: "(nat \<times> string) list" and m :: "(string \<times> string) list"
  proof (induction ds arbitrary: m)
    case Nil
    show ?case by simp
  next
    case (Cons d ds)
    obtain due p where d: "d = (due, p)" by (cases d)
    have "length (fold (\<lambda>(due, path) m. AList.delete path m) ds (AList.delete p m))
            \<le> length (AList.delete p m)"
      by (rule Cons.IH)
    also have "\<dots> \<le> length m"
      by (rule AList.length_delete_le)
    finally show ?case by (simp add: d)
  qed
  then show ?thesis by (simp add: runTimers_def)
qed

text \<open>
  A call of \<^verbatim>\<open>set\<close> on a full map whose oldest key is a non-empty string: the oldest
  entry goes, then the key is set in what is left.
\<close>

lemma cache_set_at_capacity:
  assumes full: "int (length (cache c)) \<ge> maxSize c"
    and oldest: "cache c = (k0, v0) # rest" "k0 \<noteq> []"
    and dist: "distinct (map fst (cache c))"
  shows "cache (cache_set now p v c) = AList.update p v rest"
  using full evictOldest_oldest [OF oldest dist] by (simp add: cache_set_def)

lemma map_of_fold_delete:
  "map_of (fold (\<lambda>(due, path) m. AList.delete path m) ds m) k =
     (if k \<in> snd ` set ds then None else map_of m k)"
proof (induction ds arbitrary: m)
  case Nil
  show ?case by simp
next
  case (Cons d ds)
  obtain due p where d: "d = (due, p)" by (cases d)
  show ?case
    by (auto simp: d Cons.IH AList.delete_conv')
qed

text \<open>A pending timer of a key deletes whatever the key holds when it runs.\<close>

lemma pending_timer_deletes:
  assumes "(due, p) \<in> set (timers c)" "due \<le> t"
  shows "cache_get (runTimers t c) p = None"
proof -
  from assms have "p \<in> snd ` set (filter (\<lambda>(due, path). due \<le> t) (timers c))"
    by force
  then show ?thesis
    by (simp add: runTimers_def cache_get_def map_of_fold_delete)
qed

text \<open>
  C8. The claim: for every sequence of get and set calls the size of the map never
  exceeds the configured capacity, the entry evicted at capacity being the oldest one.
  The eviction is guarded by \<^verbatim>\<open>if (oldestKey)\<close>, which is false for the empty string as
  well as for \<^verbatim>\<open>undefined\<close>: once the oldest key is the empty string nothing is evicted
  any more. With a capacity of 1, setting the key \<^verbatim>\<open>''\<close> and then another key leaves
  two entries. The empty key is a key the server sets: \<^verbatim>\<open>validatePath('')\<close> resolves to
  the working directory and caches the result under \<^verbatim>\<open>''\<close>, and a second validation
  then leaves two entries in the cache of capacity 1 (last two lines).
\<close>

theorem empty_key_blocks_eviction:
  "maxSize (newPathValidationCache 1 60000) = 1
   \<and> cache (cache_run [Set 0 '''' ''/allowed-dir'',
                        Set 1 ''/allowed-dir/f.txt'' ''/allowed-dir/f.txt'']
        (newPathValidationCache 1 60000))
       = [('''', ''/allowed-dir''), (''/allowed-dir/f.txt'', ''/allowed-dir/f.txt'')]
   \<and> cache_size (cache_run [Set 0 '''' ''/allowed-dir'',
                             Set 1 ''/allowed-dir/f.txt'' ''/allowed-dir/f.txt'']
        (newPathValidationCache 1 60000)) = 2
   \<and> validatePath sample_env sample_config 0 (newPathValidationCache 1 60000) ''''
       = (Inr ''/allowed-dir'',
          cache_set 0 '''' ''/allowed-dir'' (newPathValidationCache 1 60000))
   \<and> cache_size (snd (validatePath sample_env sample_config 1
        (snd (validatePath sample_env sample_config 0 (newPathValidationCache 1 60000) ''''))
        ''/allowed-dir/f.txt'')) = 2"
  by (simp add: path_defs cache_size_def Let_def)

text \<open>
  A value stays in the cache while no pending timer of its key is due.
\<close>

lemma value_survives_until_due:
  assumes "cache_get c p = Some v" "\<forall>x \<in> set (timers c). snd x = p \<longrightarrow> t < fst x"
  shows "cache_get (runTimers t c) p = Some v"
proof -
  from assms(2) have "p \<notin> snd ` set (filter (\<lambda>(due, path). due \<le> t) (timers c))"
    by force
  with assms(1) show ?thesis
    by (simp add: runTimers_def cache_get_def map_of_fold_delete)
qed

text \<open>Within its range the TTL is the delay of the timer.\<close>

lemma timerDelay_in_range: "1 \<le> d \<Longrightarrow> d \<le> 2147483647 \<Longrightarrow> timerDelay d = nat d"
  by (simp add: timerDelay_def)

text \<open>
  C9. For a TTL from 1 to 2147483647 milliseconds, the delays \<^verbatim>\<open>setTimeout\<close> takes as
  they are: a call of \<^verbatim>\<open>set\<close> adds a timer due one TTL later and leaves the pending
  timers alone (first line). So when a key set at \<open>t0\<close> is set again at \<open>t1\<close>, before
  the first timer is due, the new value is in the cache after the second call (second
  line); it is still there at every time before \<open>t0 + ttl\<close> at which no timer of the
  key pending from before is due (third line); and it is gone from \<open>t0 + ttl\<close> on,
  when the first timer has run (fourth line): earlier than \<open>t1 + ttl\<close>, when its own
  timer, still pending, is due (last two lines).
\<close>

theorem stale_timer_deletes_fresh_entry:
  assumes range: "1 \<le> ttl c" "ttl c \<le> 2147483647"
    and again: "t0 < t1" "t1 < t0 + nat (ttl c)"
  shows "timers (cache_set t1 p v2 (cache_set t0 p v1 c))
           = timers c @ [(t0 + nat (ttl c), p), (t1 + nat (ttl c), p)]
       \<and> cache_get (cache_set t1 p v2 (cache_set t0 p v1 c)) p = Some v2
       \<and> (\<forall>t. t < t0 + nat (ttl c) \<and> (\<forall>x \<in> set (timers c). snd x = p \<longrightarrow> t < fst x) \<longrightarrow>
             cache_get (runTimers t (cache_set t1 p v2 (cache_set t0 p v1 c))) p = Some v2)
       \<and> (\<forall>t. t0 + nat (ttl c) \<le> t \<longrightarrow>
             cache_get (runTimers t (cache_set t1 p v2 (cache_set t0 p v1 c))) p = None)
       \<and> t0 + nat (ttl c) < t1 + nat (ttl c)
       \<and> (t1 + nat (ttl c), p)
           \<in> set (timers (runTimers (t0 + nat (ttl c))
                   (cache_set t1 p v2 (cache_set t0 p v1 c))))"
proof -
  define c2 where "c2 = cache_set t1 p v2 (cache_set t0 p v1 c)"
  define d where "d = nat (ttl c)"
  have delay: "timerDelay (ttl c) = d"
    using range by (simp add: d_def timerDelay_in_range)
  have tm: "timers c2 = timers c @ [(t0 + d, p), (t1 + d, p)]"
    by (simp add: c2_def delay)
  have fresh: "cache_get c2 p = Some v2"
    by (simp add: c2_def cache_get_def cache_set_def [of t1] Let_def AList.update_conv')
  have still: "cache_get (runTimers t c2) p = Some v2"
    if early: "t < t0 + d" and old: "\<forall>x \<in> set (timers c). snd x = p \<longrightarrow> t < fst x" for t
  proof (rule value_survives_until_due [OF fresh])
    from early again have "t < t1 + d" by simp
    with early old show "\<forall>x \<in> set (timers c2). snd x = p \<longrightarrow> t < fst x"
      by (auto simp: tm)
  qed
  have gone: "cache_get (runTimers t c2) p = None" if "t0 + d \<le> t" for t
  proof (rule pending_timer_deletes [OF _ that])
    show "(t0 + d, p) \<in> set (timers c2)"
      by (simp add: tm)
  qed
  have pending: "(t1 + d, p) \<in> set (timers (runTimers (t0 + d) c2))"
    using again by (simp add: runTimers_def tm)
  from tm fresh still gone pending again show ?thesis
    unfolding c2_def d_def by simp
qed

theorem stale_timer_deletes_fresh_entry_witness:
  "cache_get (cache_set 1000 ''/allowed-dir/f.txt'' ''/allowed-dir/f.txt''
        (cache_set 0 ''/allowed-dir/f.txt'' ''/allowed-dir/f.txt'' pathCache))
        ''/allowed-dir/f.txt'' = Some ''/allowed-dir/f.txt''
   \<and> cache_get (runTimers 59999
        (cache_set 1000 ''/allowed-dir/f.txt'' ''/allowed-dir/f.txt''
          (cache_set 0 ''/allowed-dir/f.txt'' ''/allowed-dir/f.txt'' pathCache)))
        ''/allowed-dir/f.txt'' = Some ''/allowed-dir/f.txt''
   \<and> cache_get (runTimers 60000
        (cache_set 1000 ''/allowed-dir/f.txt'' ''/allowed-dir/f.txt''
          (cache_set 0 ''/allowed-dir/f.txt'' ''/allowed-dir/f.txt'' pathCache)))
        ''/allowed-dir/f.txt'' = None
   \<and> (60000::nat) < 1000 + 60000"
proof -
  have ttl: "ttl pathCache = 60000" and none: "timers pathCache = []"
    by (simp_all add: pathCache_def newPathValidationCache_def)
  have r1: "1 \<le> ttl pathCache" and r2: "ttl pathCache \<le> 2147483647"
    by (simp_all add: ttl)
  have h1: "(0::nat) < 1000"
    by simp
  have h2: "(1000::nat) < 0 + nat (ttl pathCache)"
    by (simp add: ttl)
  note inst = stale_timer_deletes_fresh_entry [OF r1 r2 h1 h2, of "''/allowed-dir/f.txt''"
      "''/allowed-dir/f.txt''" "''/allowed-dir/f.txt''", unfolded ttl none]
  from inst have fresh: "cache_get (cache_set 1000 ''/allowed-dir/f.txt'' ''/allowed-dir/f.txt''
        (cache_set 0 ''/allowed-dir/f.txt'' ''/allowed-dir/f.txt'' pathCache))
        ''/allowed-dir/f.txt'' = Some ''/allowed-dir/f.txt''"
    by blast
  from inst have "\<forall>t. t < 0 + nat 60000 \<and> (\<forall>x \<in> set []. snd x = ''/allowed-dir/f.txt'' \<longrightarrow> t < fst x)
      \<longrightarrow> cache_get (runTimers t
        (cache_set 1000 ''/allowed-dir/f.txt'' ''/allowed-dir/f.txt''
          (cache_set 0 ''/allowed-dir/f.txt'' ''/allowed-dir/f.txt'' pathCache)))
        ''/allowed-dir/f.txt'' = Some ''/allowed-dir/f.txt''"
    by blast
  then have still: "cache_get (runTimers 59999
        (cache_set 1000 ''/allowed-dir/f.txt'' ''/allowed-dir/f.txt''
          (cache_set 0 ''/allowed-dir/f.txt'' ''/allowed-dir/f.txt'' pathCache)))
        ''/allowed-dir/f.txt'' = Some ''/allowed-dir/f.txt''"
    by simp
  from inst have "\<forall>t. 0 + nat 60000 \<le> t
      \<longrightarrow> cache_get (runTimers t
        (cache_set 1000 ''/allowed-dir/f.txt'' ''/allowed-dir/f.txt''
          (cache_set 0 ''/allowed-dir/f.txt'' ''/allowed-dir/f.txt'' pathCache)))
        ''/allowed-dir/f.txt'' = None"
    by blast
  then have gone: "cache_get (runTimers 60000
        (cache_set 1000 ''/allowed-dir/f.txt'' ''/allowed-dir/f.txt''
          (cache_set 0 ''/allowed-dir/f.txt'' ''/allowed-dir/f.txt'' pathCache)))
        ''/allowed-dir/f.txt'' = None"
    by simp
  from fresh still gone show ?thesis
    by simp
qed

text \<open>
  The claim as it stands, for any TTL, fails above the range: with a TTL of 2147483648
  the timer of a value set at time 0 is due at time 1, not at time 2147483648, and the
  value is gone then.
\<close>

theorem ttl_above_range_expires_at_once:
  "timers (cache_set 0 ''/allowed-dir/f.txt'' ''/allowed-dir/f.txt''
      (newPathValidationCache 1000 2147483648)) = [(1, ''/allowed-dir/f.txt'')]
   \<and> cache_get (runTimers 1 (cache_set 0 ''/allowed-dir/f.txt'' ''/allowed-dir/f.txt''
      (newPathValidationCache 1000 2147483648))) ''/allowed-dir/f.txt'' = None
   \<and> (1::int) < 2147483648"
  by (simp add: newPathValidationCache_def cache_set_def timerDelay_def runTimers_def
        cache_get_def Let_def)

text \<open>
  A call of \<^verbatim>\<open>set\<close> on a map holding exactly as many entries as the capacity, for a key
  already in the map and an oldest key that is a non-empty string and another key: the
  oldest entry is gone, the key set has its new value, and the map is one entry short
  of the capacity.
\<close>

lemma cache_set_existing_key_at_capacity:
  assumes full: "int (length (cache c)) = maxSize c"
    and oldest: "cache c = (k0, v0) # rest" "k0 \<noteq> []"
    and dist: "distinct (map fst (cache c))"
    and present: "p \<in> fst ` set (cache c)" "p \<noteq> k0"
  shows "cache (cache_set now p v c) = AList.update p v rest
       \<and> cache_get (cache_set now p v c) k0 = None
       \<and> cache_get (cache_set now p v c) p = Some v
       \<and> int (cache_size (cache_set now p v c)) = maxSize c - 1"
proof -
  have full': "int (length (cache c)) \<ge> maxSize c" using full by simp
  have upd: "cache (cache_set now p v c) = AList.update p v rest"
    by (rule cache_set_at_capacity [OF full' oldest dist])
  have in_rest: "p \<in> fst ` set rest"
    using present oldest by auto
  have k0_out: "k0 \<notin> fst ` set rest"
    using dist oldest by auto
  have gone: "cache_get (cache_set now p v c) k0 = None"
    using k0_out present(2)
    by (simp add: cache_get_def upd AList.update_conv' map_of_eq_None_iff)
  have there: "cache_get (cache_set now p v c) p = Some v"
    by (simp add: cache_get_def upd AList.update_conv')
  have size: "int (cache_size (cache_set now p v c)) = maxSize c - 1"
    using in_rest full oldest by (simp add: cache_size_def upd length_update_alist)
  from upd gone there size show ?thesis by simp
qed

text \<open>
  C10. The claim: a call of \<^verbatim>\<open>set\<close> on a map holding exactly as many entries as the
  capacity evicts the oldest entry also when the key set is already in the map, so that
  the map ends one entry short of the capacity. The eviction is guarded by
  \<^verbatim>\<open>if (oldestKey)\<close>, false for the empty string. A cache of capacity 2 is filled by
  setting \<^verbatim>\<open>''\<close> and \<^verbatim>\<open>/b\<close> (first two lines); setting \<^verbatim>\<open>/b\<close> again evicts nothing:
  the oldest entry is still there and the size is still 2 (next three lines). With the
  oldest key \<^verbatim>\<open>/a\<close> instead, the same call does what the claim says (last two lines).
\<close>

theorem empty_oldest_key_is_not_evicted:
  "cache (cache_run [Set 0 '''' ''/allowed-dir'', Set 1 ''/b'' ''/b'']
        (newPathValidationCache 2 60000))
     = [('''', ''/allowed-dir''), (''/b'', ''/b'')]
   \<and> int (cache_size (cache_run [Set 0 '''' ''/allowed-dir'', Set 1 ''/b'' ''/b'']
        (newPathValidationCache 2 60000))) = maxSize (newPathValidationCache 2 60000)
   \<and> cache (cache_run [Set 0 '''' ''/allowed-dir'', Set 1 ''/b'' ''/b'', Set 2 ''/b'' ''/b2'']
        (newPathValidationCache 2 60000))
     = [('''', ''/allowed-dir''), (''/b'', ''/b2'')]
   \<and> cache_get (cache_run [Set 0 '''' ''/allowed-dir'', Set 1 ''/b'' ''/b'', Set 2 ''/b'' ''/b2'']
        (newPathValidationCache 2 60000)) '''' = Some ''/allowed-dir''
   \<and> cache_size (cache_run [Set 0 '''' ''/allowed-dir'', Set 1 ''/b'' ''/b'', Set 2 ''/b'' ''/b2'']
        (newPathValidationCache 2 60000)) = 2
   \<and> cache (cache_run [Set 0 ''/a'' ''/a'', Set 1 ''/b'' ''/b'', Set 2 ''/b'' ''/b2'']
        (newPathValidationCache 2 60000))
     = [(''/b'', ''/b2'')]
   \<and> cache_size (cache_run [Set 0 ''/a'' ''/a'', Set 1 ''/b'' ''/b'', Set 2 ''/b'' ''/b2'']
        (newPathValidationCache 2 60000)) = 1"
  by (simp add: newPathValidationCache_def cache_set_def evictOldest_def cache_size_def
        cache_get_def Let_def)


section \<open>Facts about path validation\<close>

text \<open>The containment test is the bare string prefix: a root followed by anything passes.\<close>

lemma startsWithSome_prefix: "dir \<in> set dirs \<Longrightarrow> startsWithSome dirs (dir @ rest)"
  unfolding startsWithSome_def list_ex_iff by (rule bexI [of _ dir]) simp_all

text \<open>
  \<^verbatim>\<open>validatePath\<close> of the path utilities, on a cache miss. A path whose real path is
  outside every allowed directory is denied with an AccessDeniedError, whether or not
  the path as requested is inside one, and nothing is cached.
\<close>

lemma validatePath_denies_escaping_real_path:
  assumes miss: "\<not> truthy (cache_get pc requestedPath)"
    and real: "realpath ev (toAbsolute ev (expandHome ev requestedPath)) = Inr realPath"
    and outside: "\<not> startsWithSome (allowedDirectories config) (normalizePath realPath)"
  shows "\<exists>message. validatePath ev config now pc requestedPath =
           (Inl (AccessDeniedError message (toAbsolute ev (expandHome ev requestedPath))), pc)"
  using assms
  by (simp add: validatePath_def validatePath_try_def validatePath_catch_def
        newAccessDeniedError_def Let_def)

text \<open>
  A path that does not exist, under a parent that resolves outside every allowed
  directory, is denied with an AccessDeniedError naming the parent.
\<close>

lemma validatePath_denies_escaping_parent:
  assumes miss: "\<not> truthy (cache_get pc requestedPath)"
    and inside: "startsWithSome (allowedDirectories config)
                   (normalizePath (toAbsolute ev (expandHome ev requestedPath)))"
    and missing: "realpath ev (toAbsolute ev (expandHome ev requestedPath)) = Inl ''ENOENT''"
    and parent: "realpath ev (path_dirname (toAbsolute ev (expandHome ev requestedPath)))
                   = Inr realParentPath"
    and outside: "\<not> startsWithSome (allowedDirectories config) (normalizePath realParentPath)"
  shows "validatePath ev config now pc requestedPath =
           (Inl (AccessDeniedError
                   ''Access denied - parent directory outside allowed directories''
                   (path_dirname (toAbsolute ev (expandHome ev requestedPath)))), pc)"
  using assms
  by (simp add: validatePath_def validatePath_try_def validatePath_catch_def
        validatePath_parent_try_def newAccessDeniedError_def Let_def)

text \<open>
  A PathNotFoundError comes only from a path and a parent that both fail to resolve with
  ENOENT, and it names the parent.
\<close>

lemma validatePath_PathNotFound_only_if:
  assumes "validatePath ev config now pc requestedPath = (Inl (PathNotFoundError message p), pc')"
  shows "realpath ev (toAbsolute ev (expandHome ev requestedPath)) = Inl ''ENOENT''
       \<and> realpath ev (path_dirname (toAbsolute ev (expandHome ev requestedPath))) = Inl ''ENOENT''
       \<and> p = path_dirname (toAbsolute ev (expandHome ev requestedPath))"
  using assms
  by (auto simp: validatePath_def validatePath_try_def validatePath_catch_def
        validatePath_parent_try_def newAccessDeniedError_def newPathNotFoundError_def Let_def
      split: if_splits sum.splits prod.splits)

text \<open>
  \<^verbatim>\<open>validatePath\<close> of the stand-alone server. The Error it throws for a real path
  outside the allowed directories is thrown inside the \<^verbatim>\<open>try\<close> whose \<^verbatim>\<open>catch\<close> takes
  every error and goes on to the parent: when the parent resolves inside an allowed
  directory, the path is returned as valid.
\<close>

lemma index_validatePath_escapes_through_catch:
  assumes inside: "startsWithSome allowedDirs
                     (normalizePath (toAbsolute ev (expandHome ev requestedPath)))"
    and real: "realpath ev (toAbsolute ev (expandHome ev requestedPath)) = Inr realPath"
    and outside: "\<not> startsWithSome allowedDirs (normalizePath realPath)"
    and parent: "realpath ev (path_dirname (toAbsolute ev (expandHome ev requestedPath)))
                   = Inr realParentPath"
    and parent_inside: "startsWithSome allowedDirs (normalizePath realParentPath)"
  shows "index_validatePath ev allowedDirs requestedPath
           = Inr (toAbsolute ev (expandHome ev requestedPath))"
  using assms
  by (simp add: index_validatePath_def index_validatePath_try_def
        index_validatePath_parent_try_def Let_def)

text \<open>
  In the same way the Error for a parent outside the allowed directories is thrown
  inside the inner \<^verbatim>\<open>try\<close>, whose \<^verbatim>\<open>catch\<close> replaces every error by the one for a
  parent that does not exist.
\<close>

lemma index_validatePath_parent_escape_misreported:
  assumes inside: "startsWithSome allowedDirs
                     (normalizePath (toAbsolute ev (expandHome ev requestedPath)))"
    and missing: "realpath ev (toAbsolute ev (expandHome ev requestedPath)) = Inl code"
    and parent: "realpath ev (path_dirname (toAbsolute ev (expandHome ev requestedPath)))
                   = Inr realParentPath"
    and outside: "\<not> startsWithSome allowedDirs (normalizePath realParentPath)"
  shows "index_validatePath ev allowedDirs requestedPath
           = Inl (JsError (''Parent directory does not exist: ''
                    @ path_dirname (toAbsolute ev (expandHome ev requestedPath))))"
  using assms
  by (simp add: index_validatePath_def index_validatePath_try_def
        index_validatePath_parent_try_def Let_def)

text \<open>
  C1. The claim: a path that exists and whose real path lies outside every allowed
  directory is denied with AccessDenied and never validated, also when the path itself
  lies inside an allowed directory. \<^verbatim>\<open>/allowed-dir/link\<close> is a symbolic link to
  \<^verbatim>\<open>/etc/passwd\<close> (first two lines). \<^verbatim>\<open>validatePath\<close> of the stand-alone server
  returns it as a valid path (third line); \<^verbatim>\<open>validatePath\<close> of the path utilities
  denies it, as the claim says (last line).
\<close>

theorem symlink_escape_is_validated:
  "realpath sample_env ''/allowed-dir/link'' = Inr ''/etc/passwd''
   \<and> \<not> startsWithSome [''/allowed-dir''] (normalizePath ''/etc/passwd'')
   \<and> index_validatePath sample_env [''/allowed-dir''] ''/allowed-dir/link''
       = Inr ''/allowed-dir/link''
   \<and> validatePath sample_env sample_config 0 pathCache ''/allowed-dir/link''
       = (Inl (AccessDeniedError ''Access denied - symlink target outside allowed directories''
                 ''/allowed-dir/link''), pathCache)"
  by (simp add: path_defs Let_def)

text \<open>
  C2. The claim: containment does not hold by bare string prefix across a segment
  boundary, so \<^verbatim>\<open>/allowed-dirX\<close> is not inside the allowed directory \<^verbatim>\<open>/allowed-dir\<close>
  and validating it is denied. Both functions test \<^verbatim>\<open>startsWith\<close> on the strings: the
  sibling directory passes the test (first line) and, existing, is returned as a valid
  path by both, and so is a file in it.
\<close>

theorem sibling_directory_passes_prefix_test:
  "startsWithSome [''/allowed-dir''] (normalizePath ''/allowed-dirX'')
   \<and> index_validatePath sample_env [''/allowed-dir''] ''/allowed-dirX'' = Inr ''/allowed-dirX''
   \<and> validatePath sample_env sample_config 0 pathCache ''/allowed-dirX''
       = (Inr ''/allowed-dirX'', cache_set 0 ''/allowed-dirX'' ''/allowed-dirX'' pathCache)
   \<and> index_validatePath sample_env [''/allowed-dir''] ''/allowed-dirX/secret.txt''
       = Inr ''/allowed-dirX/secret.txt''
   \<and> fst (validatePath sample_env sample_config 0 pathCache ''/allowed-dirX/secret.txt'')
       = Inr ''/allowed-dirX/secret.txt''"
  by (simp add: path_defs Let_def)

text \<open>
  C3. The claim: a path that does not exist, under a parent that resolves outside every
  allowed directory, is denied with AccessDenied and not with PathNotFound, which is
  for a parent that does not resolve either. \<^verbatim>\<open>/allowed-dir/dirlink\<close> is a symbolic
  link to \<^verbatim>\<open>/etc\<close>, and \<^verbatim>\<open>new.txt\<close> does not exist in it (first three lines).
  \<^verbatim>\<open>validatePath\<close> of the stand-alone server reports that the parent directory does
  not exist (fourth line); \<^verbatim>\<open>validatePath\<close> of the path utilities denies access, as
  the claim says (last line).
\<close>

theorem parent_escape_reported_as_missing_parent:
  "realpath sample_env ''/allowed-dir/dirlink/new.txt'' = Inl ''ENOENT''
   \<and> realpath sample_env ''/allowed-dir/dirlink'' = Inr ''/etc''
   \<and> \<not> startsWithSome [''/allowed-dir''] (normalizePath ''/etc'')
   \<and> index_validatePath sample_env [''/allowed-dir''] ''/allowed-dir/dirlink/new.txt''
       = Inl (JsError ''Parent directory does not exist: /allowed-dir/dirlink'')
   \<and> validatePath sample_env sample_config 0 pathCache ''/allowed-dir/dirlink/new.txt''
       = (Inl (AccessDeniedError
                 ''Access denied - parent directory outside allowed directories''
                 ''/allowed-dir/dirlink''), pathCache)"
  by (simp add: path_defs Let_def)

end
